theory Spec2Isabelle
  imports Complex_Main "HOL-Library.Monad_Syntax"
begin

section \<open>The Gaussian epilogue functor of cutlass::epilogue::thread\<close>

text \<open>
  The class template \<open>GaussianEpilogue\<close> is instantiated with four element types
  (accumulator \<open>'a\<close>, source \<open>'s\<close>, compute \<open>'c\<close>, output \<open>'o\<close>), the fragment width
  \<open>Count\<close> and a rounding style for the converters. What the template takes from the
  cutlass library and from the language (the numeric converters, the arithmetic of the
  compute type, the literal \<open>-0.5f\<close> and the intrinsic \<open>__expf\<close>) is not part of the
  header; one instantiation is a record of these operations.
\<close>

record ('a, 's, 'c, 'o) instantiation_ops =
  kCount :: int
  accumulator_converter :: "'a \<Rightarrow> 'c"
  source_converter :: "'s \<Rightarrow> 'c"
  destination_converter :: "'c \<Rightarrow> 'o"
  c_sub :: "'c \<Rightarrow> 'c \<Rightarrow> 'c"
  c_div :: "'c \<Rightarrow> 'c \<Rightarrow> 'c"
  c_mul :: "'c \<Rightarrow> 'c \<Rightarrow> 'c"
  neg_half :: "'c"
  expf :: "'c \<Rightarrow> 'c"
  uninitialized :: "'c"

text \<open>
  \<open>accumulator_converter\<close>, \<open>source_converter\<close> and \<open>destination_converter\<close> are the
  scalar \<open>NumericConverter\<close>s for the rounding style of the instantiation; \<open>c_sub\<close>,
  \<open>c_div\<close> and \<open>c_mul\<close> are the operators \<open>-\<close>, \<open>/\<close> and \<open>*\<close> of the compute type,
  \<open>neg_half\<close> is \<open>-0.5f\<close> and \<open>expf\<close> is \<open>__expf\<close>. \<open>uninitialized\<close> is the content
  of a lane of a \<open>FragmentCompute\<close> that has been declared and not yet written.
\<close>

text \<open>
  Modelled from the spec: the array form of the converters (\<open>NumericArrayConverter\<close>,
  not in the header) converts N elements from one type to another under the rounding
  policy; it is the scalar conversion applied to every lane. A fragment
  \<open>cutlass::Array<T, kCount>\<close> is a list of \<open>kCount\<close> elements.
\<close>

definition accumulator_array_converter ::
  "('a, 's, 'c, 'o) instantiation_ops \<Rightarrow> 'a list \<Rightarrow> 'c list" where
  "accumulator_array_converter T xs = map (accumulator_converter T) xs"

definition source_array_converter ::
  "('a, 's, 'c, 'o) instantiation_ops \<Rightarrow> 's list \<Rightarrow> 'c list" where
  "source_array_converter T xs = map (source_converter T) xs"

definition destination_array_converter ::
  "('a, 's, 'c, 'o) instantiation_ops \<Rightarrow> 'c list \<Rightarrow> 'o list" where
  "destination_array_converter T xs = map (destination_converter T) xs"

subsection \<open>Parameter pointers\<close>

text \<open>
  A pointer \<open>ElementCompute const *\<close> is either null or the base of a caller-owned
  array. Reading through a null pointer or outside the array is undefined behaviour;
  the read then has no value (\<open>None\<close>).
\<close>

type_synonym 'c pointer = "'c list option"

definition nullptr :: "'c pointer" where
  "nullptr = None"

definition deref :: "'c pointer \<Rightarrow> int \<Rightarrow> 'c option" where
  "deref p idx =
     (case p of
        None \<Rightarrow> None
      | Some arr \<Rightarrow> if 0 \<le> idx \<and> idx < int (length arr) then Some (arr ! nat idx) else None)"

record 'c Params =
  p1 :: "'c pointer"
  p2 :: "'c pointer"
  p3 :: "'c pointer"

definition Params_default :: "'c Params" where
  "Params_default = \<lparr>p1 = nullptr, p2 = nullptr, p3 = nullptr\<rparr>"

definition Params_of :: "'c pointer \<Rightarrow> 'c pointer \<Rightarrow> 'c pointer \<Rightarrow> 'c Params" where
  "Params_of a b c = \<lparr>p1 = a, p2 = b, p3 = c\<rparr>"

text \<open>The data members \<^verbatim>\<open>p1_\<close>, \<^verbatim>\<open>p2_\<close>, \<^verbatim>\<open>p3_\<close> of the class are the fields \<open>m_p1\<close>, \<open>m_p2\<close>, \<open>m_p3\<close>.\<close>

record 'c GaussianEpilogue =
  m_p1 :: "'c pointer"
  m_p2 :: "'c pointer"
  m_p3 :: "'c pointer"

definition GaussianEpilogue_ctor :: "'c Params \<Rightarrow> 'c GaussianEpilogue" where
  "GaussianEpilogue_ctor params = \<lparr>m_p1 = p1 params, m_p2 = p2 params, m_p3 = p3 params\<rparr>"

subsection \<open>Member functions\<close>

definition is_source_needed :: "'c GaussianEpilogue \<Rightarrow> bool" where
  "is_source_needed this = False"

text \<open>\<open>set_k_partition\<close> is the one member that is not \<open>const\<close>: it returns the object.\<close>

definition set_k_partition :: "'c GaussianEpilogue \<Rightarrow> int \<Rightarrow> int \<Rightarrow> 'c GaussianEpilogue" where
  "set_k_partition this k_partition k_partition_count = this"

text \<open>
  The loop of \<open>operator()(accumulator, source)\<close>, from lane \<open>i\<close> on; \<open>intermediate\<close>
  is the fragment written so far.
\<close>

function loop_with_source ::
  "('a, 's, 'c, 'o) instantiation_ops \<Rightarrow> 'c GaussianEpilogue \<Rightarrow> 'c list \<Rightarrow> int \<Rightarrow> 'c list
     \<Rightarrow> 'c list option" where
  "loop_with_source T this converted_accumulator i intermediate =
     (if i < kCount T then
        do {
          let x = converted_accumulator ! nat i;
          m \<leftarrow> deref (m_p2 this) i;
          s \<leftarrow> deref (m_p3 this) i;
          let diff = c_div T (c_sub T m x) s;
          a \<leftarrow> deref (m_p1 this) i;
          loop_with_source T this converted_accumulator (i + 1)
            (intermediate[nat i := c_mul T a (expf T (c_mul T (c_mul T (neg_half T) diff) diff))])
        }
      else Some intermediate)"
  by pat_completeness auto
termination
  by (relation "measure (\<lambda>(T, this, ca, i, im). nat (kCount T - i))") auto

definition apply_fragment_with_source ::
  "('a, 's, 'c, 'o) instantiation_ops \<Rightarrow> 'c GaussianEpilogue \<Rightarrow> 'a list \<Rightarrow> 's list
     \<Rightarrow> 'o list option" where
  "apply_fragment_with_source T this accumulator source =
     (let converted_source = source_array_converter T source;
          converted_accumulator = accumulator_array_converter T accumulator
      in do {
        intermediate \<leftarrow> loop_with_source T this converted_accumulator 0
                          (replicate (nat (kCount T)) (uninitialized T));
        Some (destination_array_converter T intermediate)
      })"

text \<open>The loop of \<open>operator()(accumulator)\<close>.\<close>

function loop_fragment ::
  "('a, 's, 'c, 'o) instantiation_ops \<Rightarrow> 'c GaussianEpilogue \<Rightarrow> 'c list \<Rightarrow> int \<Rightarrow> 'c list
     \<Rightarrow> 'c list option" where
  "loop_fragment T this converted_accumulator i intermediate =
     (if i < kCount T then
        do {
          let x = converted_accumulator ! nat i;
          m \<leftarrow> deref (m_p2 this) i;
          s \<leftarrow> deref (m_p3 this) i;
          let diff = c_div T (c_sub T m x) s;
          a \<leftarrow> deref (m_p1 this) i;
          loop_fragment T this converted_accumulator (i + 1)
            (intermediate[nat i := c_mul T a (expf T (c_mul T (c_mul T (neg_half T) diff) diff))])
        }
      else Some intermediate)"
  by pat_completeness auto
termination
  by (relation "measure (\<lambda>(T, this, ca, i, im). nat (kCount T - i))") auto

definition apply_fragment ::
  "('a, 's, 'c, 'o) instantiation_ops \<Rightarrow> 'c GaussianEpilogue \<Rightarrow> 'a list \<Rightarrow> 'o list option" where
  "apply_fragment T this accumulator =
     (let converted_accumulator = accumulator_array_converter T accumulator
      in do {
        intermediate \<leftarrow> loop_fragment T this converted_accumulator 0
                          (replicate (nat (kCount T)) (uninitialized T));
        Some (destination_array_converter T intermediate)
      })"

text \<open>The scalar forms, \<open>operator()(accumulator, source, idx)\<close> and \<open>operator()(accumulator, idx)\<close>.\<close>

definition apply_scalar_with_source ::
  "('a, 's, 'c, 'o) instantiation_ops \<Rightarrow> 'c GaussianEpilogue \<Rightarrow> 'a \<Rightarrow> 's \<Rightarrow> int \<Rightarrow> 'o option" where
  "apply_scalar_with_source T this accumulator source idx =
     do {
       let converted_accumulator = accumulator_converter T accumulator;
       let x = converted_accumulator;
       m \<leftarrow> deref (m_p2 this) idx;
       s \<leftarrow> deref (m_p3 this) idx;
       let diff = c_div T (c_sub T m x) s;
       a \<leftarrow> deref (m_p1 this) idx;
       let result = c_mul T a (expf T (c_mul T (c_mul T (neg_half T) diff) diff));
       Some (destination_converter T result)
     }"

definition apply_scalar ::
  "('a, 's, 'c, 'o) instantiation_ops \<Rightarrow> 'c GaussianEpilogue \<Rightarrow> 'a \<Rightarrow> int \<Rightarrow> 'o option" where
  "apply_scalar T this accumulator idx =
     do {
       let converted_accumulator = accumulator_converter T accumulator;
       let x = converted_accumulator;
       m \<leftarrow> deref (m_p2 this) idx;
       s \<leftarrow> deref (m_p3 this) idx;
       let diff = c_div T (c_sub T m x) s;
       a \<leftarrow> deref (m_p1 this) idx;
       let result = c_mul T a (expf T (c_mul T (c_mul T (neg_half T) diff) diff));
       Some (destination_converter T result)
     }"

section \<open>IEEE arithmetic of the compute type\<close>

text \<open>
  Modelled from the spec: the arithmetic of \<open>ElementCompute\<close> and the intrinsic
  \<open>__expf\<close> are not in the header. The header multiplies by the \<open>float\<close> literal
  \<open>-0.5f\<close> and calls \<open>__expf\<close>, which takes a \<open>float\<close>; the spec gives the compute
  type the standard IEEE floating-point semantics (division by zero produces infinity
  or NaN; extreme exponent arguments produce 0 or Inf from the fast exponential).

  A value is NaN, an infinity with its sign bit, or a finite number with its sign bit
  and its magnitude (so that there are two zeros). The sign bit is \<open>True\<close> for a
  negative value.
\<close>

datatype ieee_float = NaN | Infinity bool | Finite bool real

definition ieee_value :: "bool \<Rightarrow> real \<Rightarrow> real" where
  "ieee_value sb mag = (if sb then - mag else mag)"

definition is_nan :: "ieee_float \<Rightarrow> bool" where
  "is_nan x = (case x of NaN \<Rightarrow> True | _ \<Rightarrow> False)"

definition is_finite :: "ieee_float \<Rightarrow> bool" where
  "is_finite x = (case x of Finite s m \<Rightarrow> True | _ \<Rightarrow> False)"

definition is_zero :: "ieee_float \<Rightarrow> bool" where
  "is_zero x = (case x of Finite s m \<Rightarrow> m = 0 | _ \<Rightarrow> False)"

text \<open>The comparison \<open>==\<close>: NaN equals nothing, and the two zeros are equal.\<close>

definition ieee_eq :: "ieee_float \<Rightarrow> ieee_float \<Rightarrow> bool" where
  "ieee_eq x y =
     (case (x, y) of
        (Infinity s, Infinity t) \<Rightarrow> s = t
      | (Finite s m, Finite t n) \<Rightarrow> ieee_value s m = ieee_value t n
      | _ \<Rightarrow> False)"

definition ieee_neg :: "ieee_float \<Rightarrow> ieee_float" where
  "ieee_neg x =
     (case x of NaN \<Rightarrow> NaN | Infinity s \<Rightarrow> Infinity (\<not> s) | Finite s m \<Rightarrow> Finite (\<not> s) m)"

text \<open>
  Every operation on finite operands returns its exact result, rounded to nearest. The
  rounding of the format is a parameter \<open>rnd\<close>: it takes the magnitude of the exact
  result to the magnitude of the rounded one, or to \<open>None\<close> when the result overflows
  to infinity; the sign is kept, and an exact zero stays a zero.
\<close>

definition rounded :: "(real \<Rightarrow> real option) \<Rightarrow> bool \<Rightarrow> real \<Rightarrow> ieee_float" where
  "rounded rnd sb mag =
     (if mag = 0 then Finite sb 0
      else case rnd mag of None \<Rightarrow> Infinity sb | Some r \<Rightarrow> Finite sb r)"

definition ieee_sub :: "(real \<Rightarrow> real option) \<Rightarrow> ieee_float \<Rightarrow> ieee_float \<Rightarrow> ieee_float" where
  "ieee_sub rnd x y =
     (case (x, y) of
        (NaN, _) \<Rightarrow> NaN
      | (_, NaN) \<Rightarrow> NaN
      | (Infinity s, Infinity t) \<Rightarrow> if s = t then NaN else Infinity s
      | (Infinity s, Finite t n) \<Rightarrow> Infinity s
      | (Finite s m, Infinity t) \<Rightarrow> Infinity (\<not> t)
      | (Finite s m, Finite t n) \<Rightarrow>
          (let v = ieee_value s m - ieee_value t n
           in if v = 0 then Finite (s \<and> \<not> t) 0 else rounded rnd (v < 0) \<bar>v\<bar>))"

definition ieee_mul :: "(real \<Rightarrow> real option) \<Rightarrow> ieee_float \<Rightarrow> ieee_float \<Rightarrow> ieee_float" where
  "ieee_mul rnd x y =
     (case (x, y) of
        (NaN, _) \<Rightarrow> NaN
      | (_, NaN) \<Rightarrow> NaN
      | (Infinity s, Infinity t) \<Rightarrow> Infinity (s \<noteq> t)
      | (Infinity s, Finite t n) \<Rightarrow> if n = 0 then NaN else Infinity (s \<noteq> t)
      | (Finite s m, Infinity t) \<Rightarrow> if m = 0 then NaN else Infinity (s \<noteq> t)
      | (Finite s m, Finite t n) \<Rightarrow> rounded rnd (s \<noteq> t) (m * n))"

definition ieee_div :: "(real \<Rightarrow> real option) \<Rightarrow> ieee_float \<Rightarrow> ieee_float \<Rightarrow> ieee_float" where
  "ieee_div rnd x y =
     (case (x, y) of
        (NaN, _) \<Rightarrow> NaN
      | (_, NaN) \<Rightarrow> NaN
      | (Infinity s, Infinity t) \<Rightarrow> NaN
      | (Infinity s, Finite t n) \<Rightarrow> Infinity (s \<noteq> t)
      | (Finite s m, Infinity t) \<Rightarrow> Finite (s \<noteq> t) 0
      | (Finite s m, Finite t n) \<Rightarrow>
          if n = 0 then (if m = 0 then NaN else Infinity (s \<noteq> t))
          else rounded rnd (s \<noteq> t) (m / n))"

text \<open>
  Modelled from the spec: the fast exponential \<open>__expf\<close>. At the special values it is
  the exponential of IEEE 754: NaN at NaN, \<open>+\<infinity>\<close> at \<open>+\<infinity>\<close>, \<open>+0\<close> at \<open>-\<infinity>\<close>. On
  a finite argument it is whatever the approximation \<open>aexp\<close> computes, rounded; the
  approximation is a parameter.
\<close>

definition ieee_expf ::
  "(real \<Rightarrow> real option) \<Rightarrow> (real \<Rightarrow> real) \<Rightarrow> ieee_float \<Rightarrow> ieee_float" where
  "ieee_expf rnd aexp x =
     (case x of
        NaN \<Rightarrow> NaN
      | Infinity s \<Rightarrow> if s then Finite False 0 else Infinity False
      | Finite s m \<Rightarrow> rounded rnd False (aexp (ieee_value s m)))"

text \<open>
  An instantiation computes in this arithmetic when its compute type is \<open>ieee_float\<close>
  with these operations and \<open>-0.5f\<close>; its accumulator and output types and its
  converters are free.
\<close>

definition ieee_compute ::
  "('a, 's, ieee_float, 'o) instantiation_ops \<Rightarrow> (real \<Rightarrow> real option) \<Rightarrow> (real \<Rightarrow> real) \<Rightarrow> bool" where
  "ieee_compute T rnd aexp \<longleftrightarrow>
     c_sub T = ieee_sub rnd \<and> c_div T = ieee_div rnd \<and> c_mul T = ieee_mul rnd \<and>
     neg_half T = Finite True (1 / 2) \<and> expf T = ieee_expf rnd aexp"

text \<open>
  \<open>GaussianEpilogue<float, n>\<close>: the template's defaults make the four element types
  the same, and a converter from a type to itself returns its argument.
\<close>

definition float_instantiation ::
  "int \<Rightarrow> (real \<Rightarrow> real option) \<Rightarrow> (real \<Rightarrow> real)
     \<Rightarrow> (ieee_float, ieee_float, ieee_float, ieee_float) instantiation_ops" where
  "float_instantiation n rnd aexp =
     \<lparr>kCount = n,
      accumulator_converter = (\<lambda>x. x),
      source_converter = (\<lambda>x. x),
      destination_converter = (\<lambda>x. x),
      c_sub = ieee_sub rnd,
      c_div = ieee_div rnd,
      c_mul = ieee_mul rnd,
      neg_half = Finite True (1 / 2),
      expf = ieee_expf rnd aexp,
      uninitialized = NaN\<rparr>"

text \<open>
  Rounding that changes nothing: it agrees with the rounding of every binary format on
  the values that the format represents exactly.
\<close>

definition exact :: "real \<Rightarrow> real option" where
  "exact mag = Some mag"

section \<open>Calls in sequence\<close>

text \<open>
  A call of a member function and what it returns. \<open>invoke\<close> runs one call on the
  object and gives the object after the call: the \<open>const\<close> members cannot write it,
  \<open>set_k_partition\<close> could.
\<close>

datatype ('a, 's) call =
    Call_fragment_with_source "'a list" "'s list"
  | Call_fragment "'a list"
  | Call_scalar_with_source 'a 's int
  | Call_scalar 'a int
  | Call_is_source_needed
  | Call_set_k_partition int int

datatype 'o outcome =
    Fragment_result "'o list option"
  | Scalar_result "'o option"
  | Bool_result bool
  | Void_result

fun invoke ::
  "('a, 's, 'c, 'o) instantiation_ops \<Rightarrow> 'c GaussianEpilogue \<Rightarrow> ('a, 's) call
     \<Rightarrow> 'c GaussianEpilogue \<times> 'o outcome" where
  "invoke T this (Call_fragment_with_source accumulator source) =
     (this, Fragment_result (apply_fragment_with_source T this accumulator source))"
| "invoke T this (Call_fragment accumulator) =
     (this, Fragment_result (apply_fragment T this accumulator))"
| "invoke T this (Call_scalar_with_source accumulator source idx) =
     (this, Scalar_result (apply_scalar_with_source T this accumulator source idx))"
| "invoke T this (Call_scalar accumulator idx) =
     (this, Scalar_result (apply_scalar T this accumulator idx))"
| "invoke T this Call_is_source_needed = (this, Bool_result (is_source_needed this))"
| "invoke T this (Call_set_k_partition k_partition k_partition_count) =
     (set_k_partition this k_partition k_partition_count, Void_result)"

fun run ::
  "('a, 's, 'c, 'o) instantiation_ops \<Rightarrow> 'c GaussianEpilogue \<Rightarrow> ('a, 's) call list
     \<Rightarrow> 'c GaussianEpilogue \<times> 'o outcome list" where
  "run T this [] = (this, [])"
| "run T this (c # cs) =
     (let (this', r) = invoke T this c;
          (this'', rs) = run T this' cs
      in (this'', r # rs))"

section \<open>The value of one lane\<close>

text \<open>
  The value the comment of the header gives for an element,
  \<open>D = p1 * exp(-0.5 * ((p2 - x) / p3)^2)\<close>, in the arithmetic of the compute type;
  the exponent is formed as \<open>(-0.5f * diff) * diff\<close>.
\<close>

definition gaussian_value ::
  "('a, 's, 'c, 'o) instantiation_ops \<Rightarrow> 'c \<Rightarrow> 'c \<Rightarrow> 'c \<Rightarrow> 'c \<Rightarrow> 'c" where
  "gaussian_value T a m s x =
     c_mul T a (expf T (c_mul T (c_mul T (neg_half T) (c_div T (c_sub T m x) s))
                                 (c_div T (c_sub T m x) s)))"

text \<open>
  \<open>offset_from m d x\<close>: the value \<open>x\<close> is \<open>m + d\<close> for the real offset \<open>d\<close>. A finite
  \<open>m\<close> gives the finite value with that sum; an infinite or NaN \<open>m\<close> stays what it is.
\<close>

definition offset_from :: "ieee_float \<Rightarrow> real \<Rightarrow> ieee_float \<Rightarrow> bool" where
  "offset_from m d x =
     (case m of
        Finite sm mm \<Rightarrow>
          (case x of Finite s mag \<Rightarrow> ieee_value s mag = ieee_value sm mm + d | _ \<Rightarrow> False)
      | _ \<Rightarrow> x = m)"

text \<open>
  The order of magnitudes: \<open>magnitude_ge x y\<close> when both are numbers and
  \<open>|x| \<ge> |y|\<close>; an infinity is above every number, and NaN is in no order with
  anything. A value is well formed when its magnitude is not negative.
\<close>

definition magnitude_ge :: "ieee_float \<Rightarrow> ieee_float \<Rightarrow> bool" where
  "magnitude_ge x y =
     (case (x, y) of
        (NaN, _) \<Rightarrow> False
      | (_, NaN) \<Rightarrow> False
      | (Infinity s, _) \<Rightarrow> True
      | (Finite s m, Infinity t) \<Rightarrow> False
      | (Finite s m, Finite t n) \<Rightarrow> n \<le> m)"

definition well_formed :: "ieee_float \<Rightarrow> bool" where
  "well_formed x = (case x of Finite s m \<Rightarrow> 0 \<le> m | _ \<Rightarrow> True)"

text \<open>
  Rounding is monotone when a larger magnitude never rounds below a smaller one (an
  overflow counts as the largest result) and no magnitude rounds to a negative one.
  The fast exponential is monotone when, on arguments up to zero, its approximation is
  not negative and does not decrease, and its value at zero does not overflow.
\<close>

definition monotone_rounding :: "(real \<Rightarrow> real option) \<Rightarrow> bool" where
  "monotone_rounding rnd \<longleftrightarrow>
     (\<forall>a b. 0 \<le> a \<and> a \<le> b \<longrightarrow>
        (case rnd b of
           None \<Rightarrow> True
         | Some rb \<Rightarrow> (case rnd a of None \<Rightarrow> False | Some ra \<Rightarrow> ra \<le> rb))) \<and>
     (\<forall>a r. 0 \<le> a \<and> rnd a = Some r \<longrightarrow> 0 \<le> r)"

definition monotone_exp :: "(real \<Rightarrow> real option) \<Rightarrow> (real \<Rightarrow> real) \<Rightarrow> bool" where
  "monotone_exp rnd aexp \<longleftrightarrow>
     (\<forall>u v. u \<le> v \<and> v \<le> 0 \<longrightarrow> 0 \<le> aexp u \<and> aexp u \<le> aexp v) \<and> rnd (aexp 0) \<noteq> None"

text \<open>
  \<open>le_mag x y\<close>: two well-formed numbers with \<open>|x| \<le> |y|\<close>. \<open>neg_signed x\<close>: a number
  whose sign bit is set.
\<close>

definition le_mag :: "ieee_float \<Rightarrow> ieee_float \<Rightarrow> bool" where
  "le_mag x y \<longleftrightarrow> magnitude_ge y x \<and> well_formed x \<and> well_formed y"

definition neg_signed :: "ieee_float \<Rightarrow> bool" where
  "neg_signed x = (case x of NaN \<Rightarrow> False | Infinity s \<Rightarrow> s | Finite s m \<Rightarrow> s)"

section \<open>Concrete functors\<close>

text \<open>
  The scenario of the spec: compute type 32-bit float, \<open>N = 1\<close>, \<open>p1 = [2.0]\<close>,
  \<open>p2 = [1.0]\<close>, \<open>p3 = [0.5]\<close>. Every number below is exactly representable in
  binary32; the exponential is the real one.
\<close>

definition scenario_instantiation ::
  "(ieee_float, ieee_float, ieee_float, ieee_float) instantiation_ops" where
  "scenario_instantiation = float_instantiation 1 exact exp"

definition scenario_functor :: "ieee_float GaussianEpilogue" where
  "scenario_functor =
     GaussianEpilogue_ctor
       (Params_of (Some [Finite False 2]) (Some [Finite False 1]) (Some [Finite False (1 / 2)]))"

text \<open>The same amplitude and mean with a standard deviation of zero.\<close>

definition zero_deviation_functor :: "ieee_float GaussianEpilogue" where
  "zero_deviation_functor =
     GaussianEpilogue_ctor
       (Params_of (Some [Finite False 2]) (Some [Finite False 1]) (Some [Finite False 0]))"

text \<open>Amplitude 2 and standard deviation 1 with an infinite mean.\<close>

definition infinite_mean_functor :: "ieee_float GaussianEpilogue" where
  "infinite_mean_functor =
     GaussianEpilogue_ctor
       (Params_of (Some [Finite False 2]) (Some [Infinity False]) (Some [Finite False 1]))"

text \<open>Amplitude 2 and mean 1 with a standard deviation that is NaN.\<close>

definition nan_deviation_functor :: "ieee_float GaussianEpilogue" where
  "nan_deviation_functor =
     GaussianEpilogue_ctor
       (Params_of (Some [Finite False 2]) (Some [Finite False 1]) (Some [NaN]))"

section \<open>Properties\<close>

lemma loop_with_source_eq:
  "loop_with_source T this ca i im = loop_fragment T this ca i im"
proof (induction T this ca i im rule: loop_fragment.induct)
  case (1 T this ca i im)
  show ?case
  proof (cases "i < kCount T")
    case False
    then show ?thesis by simp
  next
    case True
    show ?thesis
      apply (subst loop_with_source.simps)
      apply (subst loop_fragment.simps)
      using True 1
      by (auto simp: Let_def split: Option.bind_splits)
  qed
qed

lemma deref_Some:
  "0 \<le> idx \<Longrightarrow> idx < int (length arr) \<Longrightarrow> deref (Some arr) idx = Some (arr ! nat idx)"
  by (simp add: deref_def)

lemma loop_fragment_done:
  "\<not> i < kCount T \<Longrightarrow> loop_fragment T this ca i im = Some im"
  by simp

lemma loop_fragment_step:
  "i < kCount T \<Longrightarrow> loop_fragment T this ca i im =
     do {
       m \<leftarrow> deref (m_p2 this) i;
       s \<leftarrow> deref (m_p3 this) i;
       a \<leftarrow> deref (m_p1 this) i;
       loop_fragment T this ca (i + 1) (im[nat i := gaussian_value T a m s (ca ! nat i)])
     }"
  by (subst loop_fragment.simps) (simp add: Let_def gaussian_value_def)

lemma loop_fragment_total:
  assumes "m_p1 this = Some a1" "m_p2 this = Some a2" "m_p3 this = Some a3"
    and "kCount T \<le> int (length a1)" "kCount T \<le> int (length a2)" "kCount T \<le> int (length a3)"
    and "0 \<le> i"
  shows "\<exists>out. loop_fragment T this ca i im = Some out"
  using \<open>0 \<le> i\<close>
proof (induction "nat (kCount T - i)" arbitrary: i im)
  case 0
  then have "\<not> i < kCount T" by simp
  then show ?case by (simp add: loop_fragment_done del: loop_fragment.simps)
next
  case (Suc n)
  then have lt: "i < kCount T" and n: "n = nat (kCount T - (i + 1))" and nn: "0 \<le> i + 1"
    by linarith+
  have d: "deref (m_p2 this) i = Some (a2 ! nat i)" "deref (m_p3 this) i = Some (a3 ! nat i)"
    "deref (m_p1 this) i = Some (a1 ! nat i)"
    using lt Suc.prems assms(1-6) by (simp_all add: deref_Some)
  show ?case
    using Suc.hyps(1)[OF n nn] lt d
    by (simp add: loop_fragment_step del: loop_fragment.simps)
qed

lemma loop_fragment_lanes:
  assumes "loop_fragment T this ca i im = Some out" and "0 \<le> i"
  shows "length out = length im \<and>
     (\<forall>j. 0 \<le> j \<and> j < int (length im) \<longrightarrow>
        (if i \<le> j \<and> j < kCount T then
           (\<exists>m s a. deref (m_p2 this) j = Some m \<and> deref (m_p3 this) j = Some s \<and>
              deref (m_p1 this) j = Some a \<and> out ! nat j = gaussian_value T a m s (ca ! nat j))
         else out ! nat j = im ! nat j))"
  using assms
proof (induction "nat (kCount T - i)" arbitrary: i im)
  case 0
  then have "\<not> i < kCount T" by simp
  then have "out = im" using "0.prems"(1) by (simp add: loop_fragment_done del: loop_fragment.simps)
  then show ?case using \<open>\<not> i < kCount T\<close> by auto
next
  case (Suc n)
  then have lt: "i < kCount T" and n: "n = nat (kCount T - (i + 1))" and nn: "0 \<le> i + 1"
    by linarith+
  from Suc.prems(1) lt obtain m s a where
    d: "deref (m_p2 this) i = Some m" "deref (m_p3 this) i = Some s" "deref (m_p1 this) i = Some a"
    and r: "loop_fragment T this ca (i + 1) (im[nat i := gaussian_value T a m s (ca ! nat i)]) = Some out"
    by (auto simp: loop_fragment_step simp del: loop_fragment.simps split: Option.bind_splits)
  note ih0 = Suc.hyps(1)[OF n r nn]
  have len: "length out = length im"
    using ih0 by simp
  have ih: "if i + 1 \<le> j \<and> j < kCount T then
         (\<exists>m s a. deref (m_p2 this) j = Some m \<and> deref (m_p3 this) j = Some s \<and>
            deref (m_p1 this) j = Some a \<and> out ! nat j = gaussian_value T a m s (ca ! nat j))
       else out ! nat j = (im[nat i := gaussian_value T a m s (ca ! nat i)]) ! nat j"
    if "0 \<le> j" "j < int (length im)" for j
    using ih0[THEN conjunct2, rule_format, of j] that by simp
  show ?case
  proof (intro conjI allI impI)
    show "length out = length im" by (rule len)
  next
    fix j assume j: "0 \<le> j \<and> j < int (length im)"
    consider "j = i" | "i + 1 \<le> j" "j < kCount T" | "j < i \<or> kCount T \<le> j" "j \<noteq> i"
      by linarith
    then show "if i \<le> j \<and> j < kCount T then
         (\<exists>m s a. deref (m_p2 this) j = Some m \<and> deref (m_p3 this) j = Some s \<and>
            deref (m_p1 this) j = Some a \<and> out ! nat j = gaussian_value T a m s (ca ! nat j))
       else out ! nat j = im ! nat j"
    proof cases
      case 1
      then have "nat i < length im" using j by linarith
      then show ?thesis using ih[of j] j d lt 1 by simp
    next
      case 2
      then show ?thesis using ih[of j] j by simp
    next
      case 3
      then have "nat j \<noteq> nat i" using j \<open>0 \<le> i\<close> by linarith
      then show ?thesis using ih[of j] j 3 by auto
    qed
  qed
qed

lemma apply_fragment_lanes:
  assumes "length accumulator = nat (kCount T)"
    and "m_p1 this = Some a1" "m_p2 this = Some a2" "m_p3 this = Some a3"
    and "kCount T \<le> int (length a1)" "kCount T \<le> int (length a2)" "kCount T \<le> int (length a3)"
  shows "\<exists>out. apply_fragment T this accumulator = Some out \<and> length out = nat (kCount T) \<and>
    (\<forall>i. 0 \<le> i \<and> i < kCount T \<longrightarrow>
       out ! nat i = destination_converter T
         (gaussian_value T (a1 ! nat i) (a2 ! nat i) (a3 ! nat i)
            (accumulator_converter T (accumulator ! nat i))))"
proof -
  let ?ca = "accumulator_array_converter T accumulator"
  let ?im = "replicate (nat (kCount T)) (uninitialized T)"
  obtain im' where im': "loop_fragment T this ?ca 0 ?im = Some im'"
    using loop_fragment_total[OF assms(2-7), of 0 ?ca ?im] by auto
  note lanes = loop_fragment_lanes[OF im', simplified]
  have len: "length im' = nat (kCount T)" using lanes by simp
  have val: "im' ! nat i = gaussian_value T (a1 ! nat i) (a2 ! nat i) (a3 ! nat i)
            (accumulator_converter T (accumulator ! nat i))" if "0 \<le> i" "i < kCount T" for i
  proof -
    have d: "deref (m_p2 this) i = Some (a2 ! nat i)" "deref (m_p3 this) i = Some (a3 ! nat i)"
      "deref (m_p1 this) i = Some (a1 ! nat i)"
      using that assms(2-7) by (simp_all add: deref_Some)
    have "?ca ! nat i = accumulator_converter T (accumulator ! nat i)"
      using that assms(1) by (simp add: accumulator_array_converter_def)
    then show ?thesis
      using lanes[THEN conjunct2, rule_format, of i] that d by auto
  qed
  have "apply_fragment T this accumulator = Some (destination_array_converter T im')"
    using im' by (simp add: apply_fragment_def)
  moreover have "length (destination_array_converter T im') = nat (kCount T)"
    using len by (simp add: destination_array_converter_def)
  moreover have "destination_array_converter T im' ! nat i = destination_converter T
         (gaussian_value T (a1 ! nat i) (a2 ! nat i) (a3 ! nat i)
            (accumulator_converter T (accumulator ! nat i)))" if "0 \<le> i" "i < kCount T" for i
    using that val[OF that] len by (simp add: destination_array_converter_def)
  ultimately show ?thesis by blast
qed

lemma apply_scalar_value:
  assumes "m_p1 this = Some a1" "m_p2 this = Some a2" "m_p3 this = Some a3"
    and "idx < int (length a1)" "idx < int (length a2)" "idx < int (length a3)"
    and "0 \<le> idx"
  shows "apply_scalar T this accumulator idx =
    Some (destination_converter T
      (gaussian_value T (a1 ! nat idx) (a2 ! nat idx) (a3 ! nat idx) (accumulator_converter T accumulator)))"
  using assms by (simp add: apply_scalar_def deref_Some gaussian_value_def Let_def)

lemma invoke_object: "fst (invoke T this c) = this"
  by (cases c) (simp_all add: set_k_partition_def)

subsection \<open>The fragment and scalar forms\<close>

text \<open>
  A fragment \<open>cutlass::Array<T, kCount>\<close> is a list of \<open>kCount\<close> elements; the
  statements about a lane take a fragment of that length and parameter arrays of at
  least \<open>kCount\<close> elements, as the caller has to provide.
\<close>

text \<open>
  C1. For an accumulator fragment of \<open>kCount\<close> lanes and a lane \<open>0 \<le> i < kCount\<close>,
  \<open>operator()(accumulator)\<close> returns a fragment of \<open>kCount\<close> lanes whose lane \<open>i\<close>
  is the output conversion of \<open>p1[i] * exp(-0.5 * ((p2[i] - x) / p3[i])^2)\<close>, computed
  in the compute type, where \<open>x\<close> is the compute conversion of lane \<open>i\<close> of the
  accumulator.
\<close>

theorem apply_fragment_lane:
  assumes "length accumulator = nat (kCount T)"
    and "m_p1 this = Some a1" "m_p2 this = Some a2" "m_p3 this = Some a3"
    and "kCount T \<le> int (length a1)" "kCount T \<le> int (length a2)" "kCount T \<le> int (length a3)"
    and "0 \<le> i" "i < kCount T"
  shows "\<exists>out. apply_fragment T this accumulator = Some out \<and> length out = nat (kCount T) \<and>
       out ! nat i = destination_converter T
         (gaussian_value T (a1 ! nat i) (a2 ! nat i) (a3 ! nat i)
            (accumulator_converter T (accumulator ! nat i)))"
  using apply_fragment_lanes[OF assms(1-7)] assms(8,9) by blast

theorem apply_fragment_lane_witness:
  "length [Finite False (3 / 2)] = nat (kCount scenario_instantiation) \<and>
   (\<exists>out. apply_fragment scenario_instantiation scenario_functor [Finite False (3 / 2)] = Some out \<and>
      length out = 1 \<and> out ! nat 0 = Finite False (2 * exp (- (1 / 2))))"
  using apply_fragment_lane[of "[Finite False (3 / 2)]" scenario_instantiation scenario_functor
      "[Finite False 2]" "[Finite False 1]" "[Finite False (1 / 2)]" 0]
  by (simp add: scenario_instantiation_def scenario_functor_def float_instantiation_def
      GaussianEpilogue_ctor_def Params_of_def gaussian_value_def
      ieee_sub_def ieee_div_def ieee_mul_def ieee_expf_def rounded_def exact_def ieee_value_def)

text \<open>
  C10. Lane \<open>i\<close> of the fragment returned by \<open>operator()(accumulator)\<close> is what
  \<open>operator()(accumulator[i], i)\<close> returns.
\<close>

theorem fragment_lane_is_scalar:
  assumes "length accumulator = nat (kCount T)"
    and "m_p1 this = Some a1" "m_p2 this = Some a2" "m_p3 this = Some a3"
    and "kCount T \<le> int (length a1)" "kCount T \<le> int (length a2)" "kCount T \<le> int (length a3)"
    and "0 \<le> i" "i < kCount T"
  shows "\<exists>out. apply_fragment T this accumulator = Some out \<and>
       apply_scalar T this (accumulator ! nat i) i = Some (out ! nat i)"
proof -
  have "apply_scalar T this (accumulator ! nat i) i =
    Some (destination_converter T
      (gaussian_value T (a1 ! nat i) (a2 ! nat i) (a3 ! nat i) (accumulator_converter T (accumulator ! nat i))))"
    using assms by (intro apply_scalar_value) simp_all
  then show ?thesis
    using apply_fragment_lanes[OF assms(1-7)] assms(8,9) by auto
qed

theorem fragment_lane_is_scalar_witness:
  "length [Finite False 2] = nat (kCount scenario_instantiation) \<and>
   (\<exists>out. apply_fragment scenario_instantiation scenario_functor [Finite False 2] = Some out \<and>
      apply_scalar scenario_instantiation scenario_functor ([Finite False 2] ! nat 0) 0 = Some (out ! nat 0))"
  using fragment_lane_is_scalar[of "[Finite False 2]" scenario_instantiation scenario_functor
      "[Finite False 2]" "[Finite False 1]" "[Finite False (1 / 2)]" 0]
  by (simp add: scenario_instantiation_def scenario_functor_def float_instantiation_def
      GaussianEpilogue_ctor_def Params_of_def)

text \<open>
  C2. The forms that take a source return what the forms without it return, whatever
  the source is: \<open>operator()(accumulator, source)\<close> as \<open>operator()(accumulator)\<close> and
  \<open>operator()(accumulator, source, idx)\<close> as \<open>operator()(accumulator, idx)\<close>.
\<close>

theorem source_ignored:
  "apply_fragment_with_source T this accumulator source = apply_fragment T this accumulator \<and>
   apply_scalar_with_source T this a c idx = apply_scalar T this a idx"
  by (simp add: apply_fragment_with_source_def apply_fragment_def loop_with_source_eq
      apply_scalar_with_source_def apply_scalar_def Let_def del: loop_fragment.simps loop_with_source.simps)

text \<open>
  C3. \<open>is_source_needed\<close> returns false for a functor constructed from any
  parameters, and for one constructed from the default parameters with their null
  pointers.
\<close>

theorem is_source_needed_false:
  "is_source_needed (GaussianEpilogue_ctor params) = False \<and>
   is_source_needed (GaussianEpilogue_ctor Params_default) = False"
  by (simp add: is_source_needed_def)

text \<open>
  C4. \<open>set_k_partition\<close> leaves the functor as it was, for every partition index and
  count, and each form of \<open>operator()\<close> returns after it what it returned before.
\<close>

theorem set_k_partition_noop:
  "set_k_partition this k_partition k_partition_count = this \<and>
   apply_fragment T (set_k_partition this k_partition k_partition_count) accumulator =
     apply_fragment T this accumulator \<and>
   apply_fragment_with_source T (set_k_partition this k_partition k_partition_count) accumulator source =
     apply_fragment_with_source T this accumulator source \<and>
   apply_scalar T (set_k_partition this k_partition k_partition_count) a idx =
     apply_scalar T this a idx \<and>
   apply_scalar_with_source T (set_k_partition this k_partition k_partition_count) a c idx =
     apply_scalar_with_source T this a c idx"
  by (simp add: set_k_partition_def)

text \<open>
  C9. After any sequence of calls the functor is the one that was constructed, and
  every call in the sequence returns what the same call returns on the functor as
  constructed: equal calls return equal results wherever they stand.
\<close>

theorem calls_independent:
  "fst (run T this cs) = this \<and> snd (run T this cs) = map (\<lambda>c. snd (invoke T this c)) cs"
proof (induction cs)
  case Nil
  show ?case by simp
next
  case (Cons c cs)
  obtain r where r: "invoke T this c = (this, r)"
    using invoke_object[of T this c] by (cases "invoke T this c") simp
  obtain rs where rs: "run T this cs = (this, rs)"
    using Cons by (cases "run T this cs") simp
  show ?case using r rs Cons by simp
qed

subsection \<open>IEEE arithmetic\<close>

lemma rounded_neg: "rounded rnd (\<not> sb) mag = ieee_neg (rounded rnd sb mag)"
  by (simp add: rounded_def ieee_neg_def split: option.splits)

lemma ieee_neg_neg: "ieee_neg (ieee_neg x) = x"
  by (cases x) (simp_all add: ieee_neg_def)

lemma ieee_div_neg: "ieee_div rnd (ieee_neg a) s = ieee_neg (ieee_div rnd a s)"
  by (cases a; cases s) (simp_all add: ieee_div_def ieee_neg_def rounded_def split: option.splits)

lemma ieee_mul_neg_right: "ieee_mul rnd h (ieee_neg q) = ieee_neg (ieee_mul rnd h q)"
  by (cases h; cases q) (simp_all add: ieee_mul_def ieee_neg_def rounded_def split: option.splits)

lemma ieee_mul_neg_left: "ieee_mul rnd (ieee_neg h) q = ieee_neg (ieee_mul rnd h q)"
  by (cases h; cases q) (simp_all add: ieee_mul_def ieee_neg_def rounded_def split: option.splits)

lemma exponent_even:
  "ieee_mul rnd (ieee_mul rnd h (ieee_div rnd (ieee_neg a) s)) (ieee_div rnd (ieee_neg a) s) =
   ieee_mul rnd (ieee_mul rnd h (ieee_div rnd a s)) (ieee_div rnd a s)"
  by (simp add: ieee_div_neg ieee_mul_neg_right ieee_mul_neg_left ieee_neg_neg)

lemma ieee_sub_symmetric:
  assumes "ieee_value s1 m1 = ieee_value sm mm + d" "ieee_value s2 m2 = ieee_value sm mm - d"
  shows "ieee_sub rnd (Finite sm mm) (Finite s2 m2) = ieee_neg (ieee_sub rnd (Finite sm mm) (Finite s1 m1))
       \<or> (is_zero (ieee_sub rnd (Finite sm mm) (Finite s2 m2)) \<and> is_zero (ieee_sub rnd (Finite sm mm) (Finite s1 m1)))"
proof (cases "d = 0")
  case True
  then show ?thesis using assms by (simp add: ieee_sub_def is_zero_def)
next
  case False
  have "ieee_sub rnd (Finite sm mm) (Finite s1 m1) = rounded rnd (0 < d) \<bar>d\<bar>"
    using False assms by (simp add: ieee_sub_def)
  moreover have "(d < 0) = (\<not> 0 < d)"
    using False by auto
  then have "ieee_sub rnd (Finite sm mm) (Finite s2 m2) = rounded rnd (\<not> 0 < d) \<bar>d\<bar>"
    using False assms by (simp add: ieee_sub_def)
  ultimately show ?thesis by (simp only: rounded_neg) simp
qed

lemma exponent_at_zero:
  assumes "is_zero a" "\<not> is_zero s" "\<not> is_nan s"
  shows "ieee_mul rnd (ieee_mul rnd (Finite True (1 / 2)) (ieee_div rnd a s)) (ieee_div rnd a s) = Finite True 0"
  using assms
  by (cases a; cases s) (simp_all add: is_zero_def is_nan_def ieee_div_def ieee_mul_def rounded_def)

lemma exponent_at_zero_sigma:
  assumes "\<not> is_nan a" "\<not> is_zero a" "is_zero s"
  shows "ieee_mul rnd (ieee_mul rnd (Finite True (1 / 2)) (ieee_div rnd a s)) (ieee_div rnd a s) = Infinity True"
  using assms
  by (cases a; cases s) (simp_all add: is_zero_def is_nan_def ieee_div_def ieee_mul_def rounded_def)

lemma ieee_mul_zero:
  "ieee_mul rnd a (Finite False 0) = (case a of Finite s m \<Rightarrow> Finite s 0 | _ \<Rightarrow> NaN)"
  by (cases a) (simp_all add: ieee_mul_def rounded_def)

lemma ieee_mul_one:
  assumes "rnd 1 = Some 1" "case a of Finite s m \<Rightarrow> rnd m = Some m | _ \<Rightarrow> True"
  shows "ieee_mul rnd a (Finite False 1) = a"
  using assms by (cases a) (simp_all add: ieee_mul_def rounded_def)

lemma gaussian_value_ieee:
  assumes "ieee_compute T rnd aexp"
  shows "gaussian_value T a m s x =
    ieee_mul rnd a (ieee_expf rnd aexp
      (ieee_mul rnd (ieee_mul rnd (Finite True (1 / 2)) (ieee_div rnd (ieee_sub rnd m x) s))
         (ieee_div rnd (ieee_sub rnd m x) s)))"
  using assms by (simp add: gaussian_value_def ieee_compute_def)

lemma ieee_sub_equal:
  assumes "is_finite m" "ieee_eq x m"
  shows "is_zero (ieee_sub rnd m x)"
  using assms
  by (cases m; cases x) (simp_all add: is_finite_def ieee_eq_def ieee_sub_def is_zero_def)

lemma ieee_sub_differ:
  assumes "\<not> is_nan x" "\<not> is_nan m" "\<not> ieee_eq x m"
  shows "\<not> is_nan (ieee_sub rnd m x)"
  using assms
  by (cases m; cases x)
     (auto simp add: is_nan_def ieee_eq_def ieee_sub_def Let_def rounded_def split: option.splits)

lemma ieee_sub_nan:
  assumes "is_nan x \<or> is_nan m"
  shows "ieee_sub rnd m x = NaN"
  using assms by (cases m; cases x) (simp_all add: is_nan_def ieee_sub_def)

lemma ieee_nan_propagates:
  "ieee_mul rnd a (ieee_expf rnd aexp (ieee_mul rnd (ieee_mul rnd h (ieee_div rnd NaN s))
     (ieee_div rnd NaN s))) = NaN"
  by (cases a; cases h) (simp_all add: ieee_div_def ieee_mul_def ieee_expf_def)

lemma ieee_expf_zero:
  assumes "aexp 0 = 1" "rnd 1 = Some 1"
  shows "ieee_expf rnd aexp (Finite True 0) = Finite False 1"
  using assms by (simp add: ieee_expf_def ieee_value_def rounded_def)

text \<open>
  C5. Let the compute type have the IEEE arithmetic, \<open>p2[i]\<close> be finite, \<open>p3[i]\<close> be
  neither zero nor NaN, and the converted accumulator of lane \<open>i\<close> compare equal to
  \<open>p2[i]\<close>. Then the exponent argument is the zero \<open>-0\<close> and lane \<open>i\<close> of the output
  is the conversion of \<open>p1[i] * __expf(-0)\<close>. Where the fast exponential is 1 at zero
  and \<open>p1[i] * 1\<close> rounds to \<open>p1[i]\<close>, it is the conversion of \<open>p1[i]\<close>.
\<close>

theorem peak_at_mean:
  assumes "ieee_compute T rnd aexp"
    and "length accumulator = nat (kCount T)"
    and "m_p1 this = Some a1" "m_p2 this = Some a2" "m_p3 this = Some a3"
    and "kCount T \<le> int (length a1)" "kCount T \<le> int (length a2)" "kCount T \<le> int (length a3)"
    and "0 \<le> i" "i < kCount T"
    and "is_finite (a2 ! nat i)"
    and "ieee_eq (accumulator_converter T (accumulator ! nat i)) (a2 ! nat i)"
    and "\<not> is_zero (a3 ! nat i)" "\<not> is_nan (a3 ! nat i)"
  shows "\<exists>out. apply_fragment T this accumulator = Some out \<and>
     out ! nat i = destination_converter T
        (ieee_mul rnd (a1 ! nat i) (ieee_expf rnd aexp (Finite True 0))) \<and>
     (aexp 0 = 1 \<and> rnd 1 = Some 1 \<and> (case a1 ! nat i of Finite s mag \<Rightarrow> rnd mag = Some mag | _ \<Rightarrow> True)
        \<longrightarrow> out ! nat i = destination_converter T (a1 ! nat i))"
proof -
  let ?x = "accumulator_converter T (accumulator ! nat i)"
  have z: "is_zero (ieee_sub rnd (a2 ! nat i) ?x)"
    using assms(11,12) by (rule ieee_sub_equal)
  have v: "gaussian_value T (a1 ! nat i) (a2 ! nat i) (a3 ! nat i) ?x =
      ieee_mul rnd (a1 ! nat i) (ieee_expf rnd aexp (Finite True 0))"
    by (simp only: gaussian_value_ieee[OF assms(1)] exponent_at_zero[OF z assms(13,14)])
  have one: "ieee_mul rnd (a1 ! nat i) (ieee_expf rnd aexp (Finite True 0)) = a1 ! nat i"
    if "aexp 0 = 1" "rnd 1 = Some 1" "case a1 ! nat i of Finite s mag \<Rightarrow> rnd mag = Some mag | _ \<Rightarrow> True"
    using that by (simp only: ieee_expf_zero ieee_mul_one)
  obtain out where out: "apply_fragment T this accumulator = Some out"
    and lane: "out ! nat i = destination_converter T
         (gaussian_value T (a1 ! nat i) (a2 ! nat i) (a3 ! nat i) ?x)"
    using apply_fragment_lanes[OF assms(2-8)] assms(9,10) by blast
  show ?thesis
    using out lane v one by auto
qed

theorem peak_at_mean_witness:
  "ieee_eq (accumulator_converter scenario_instantiation ([Finite False 1] ! nat 0)) ([Finite False 1] ! nat 0) \<and>
   \<not> is_zero ([Finite False (1 / 2)] ! nat 0) \<and>
   (\<exists>out. apply_fragment scenario_instantiation scenario_functor [Finite False 1] = Some out \<and>
      out ! nat 0 = Finite False 2)"
  using peak_at_mean[of scenario_instantiation exact exp "[Finite False 1]" scenario_functor
      "[Finite False 2]" "[Finite False 1]" "[Finite False (1 / 2)]" 0]
  by (simp add: scenario_instantiation_def scenario_functor_def float_instantiation_def
      GaussianEpilogue_ctor_def Params_of_def ieee_compute_def is_finite_def ieee_eq_def
      is_zero_def is_nan_def exact_def) blast

text \<open>
  With \<open>p1 = [2]\<close>, \<open>p2 = [+\<infinity>]\<close> and \<open>p3 = [1]\<close>, the accumulator \<open>+\<infinity>\<close> compares
  equal to \<open>p2[0]\<close> and \<open>p3[0]\<close> is not zero. The output is NaN, which equals nothing,
  where the conversion of \<open>p1[0] * __expf(-0)\<close> is 2: the difference
  \<open>\<infinity> - \<infinity>\<close> is NaN.
\<close>

theorem peak_at_mean_counterexample:
  "\<not> is_zero (Finite False 1) \<and>
   ieee_eq (accumulator_converter scenario_instantiation (Infinity False)) (Infinity False) \<and>
   apply_fragment scenario_instantiation infinite_mean_functor [Infinity False] = Some [NaN] \<and>
   destination_converter scenario_instantiation
     (ieee_mul exact (Finite False 2) (ieee_expf exact exp (Finite True 0))) = Finite False 2 \<and>
   is_nan NaN \<and> ieee_eq NaN (Finite False 2) = False"
  by (simp add: is_nan_def apply_fragment_def scenario_instantiation_def infinite_mean_functor_def float_instantiation_def
     GaussianEpilogue_ctor_def Params_of_def accumulator_array_converter_def destination_array_converter_def
     loop_fragment_step loop_fragment_done deref_def gaussian_value_def is_zero_def ieee_eq_def
     ieee_sub_def ieee_div_def ieee_mul_def ieee_expf_def rounded_def exact_def ieee_value_def
     del: loop_fragment.simps)

text \<open>
  C6. Let the compute type have the IEEE arithmetic, \<open>p3[i]\<close> be not zero, and the
  converted accumulators of lane \<open>i\<close> in two fragments be the values \<open>p2[i] + d\<close> and
  \<open>p2[i] - d\<close> for a real \<open>d\<close>. Then lane \<open>i\<close> of the two outputs is the same.
\<close>

theorem even_about_mean:
  assumes "ieee_compute T rnd aexp"
    and "length acc1 = nat (kCount T)" "length acc2 = nat (kCount T)"
    and "m_p1 this = Some a1" "m_p2 this = Some a2" "m_p3 this = Some a3"
    and "kCount T \<le> int (length a1)" "kCount T \<le> int (length a2)" "kCount T \<le> int (length a3)"
    and "0 \<le> i" "i < kCount T"
    and "\<not> is_zero (a3 ! nat i)"
    and "offset_from (a2 ! nat i) d (accumulator_converter T (acc1 ! nat i))"
    and "offset_from (a2 ! nat i) (- d) (accumulator_converter T (acc2 ! nat i))"
  shows "\<exists>out1 out2. apply_fragment T this acc1 = Some out1 \<and>
       apply_fragment T this acc2 = Some out2 \<and> out1 ! nat i = out2 ! nat i"
proof -
  let ?x1 = "accumulator_converter T (acc1 ! nat i)"
  let ?x2 = "accumulator_converter T (acc2 ! nat i)"
  let ?h = "Finite True (1 / 2)"
  let ?e = "\<lambda>a. ieee_mul rnd (ieee_mul rnd ?h (ieee_div rnd a (a3 ! nat i))) (ieee_div rnd a (a3 ! nat i))"
  have e: "?e (ieee_sub rnd (a2 ! nat i) ?x2) = ?e (ieee_sub rnd (a2 ! nat i) ?x1)"
  proof (cases "a2 ! nat i")
    case (Finite sm mm)
    obtain s1 m1 where x1: "?x1 = Finite s1 m1" and v1: "ieee_value s1 m1 = ieee_value sm mm + d"
      using assms(13) Finite by (cases ?x1) (simp_all add: offset_from_def)
    obtain s2 m2 where x2: "?x2 = Finite s2 m2" and v2: "ieee_value s2 m2 = ieee_value sm mm - d"
      using assms(14) Finite by (cases ?x2) (simp_all add: offset_from_def)
    let ?d1 = "ieee_sub rnd (Finite sm mm) (Finite s1 m1)"
    let ?d2 = "ieee_sub rnd (Finite sm mm) (Finite s2 m2)"
    from ieee_sub_symmetric[OF v1 v2, of rnd]
    consider "?d2 = ieee_neg ?d1" | "is_zero ?d2" "is_zero ?d1" by blast
    then have "?e ?d2 = ?e ?d1"
    proof cases
      case 1
      then show ?thesis by (simp only: exponent_even)
    next
      case 2
      show ?thesis
      proof (cases "is_nan (a3 ! nat i)")
        case True
        then show ?thesis
          by (cases "a3 ! nat i") (simp_all add: is_nan_def ieee_div_def ieee_mul_def split: ieee_float.splits)
      next
        case False
        then show ?thesis
          using exponent_at_zero[OF 2(1) assms(12) False] exponent_at_zero[OF 2(2) assms(12) False] by simp
      qed
    qed
    then show ?thesis by (simp only: Finite x1 x2)
  next
    case NaN
    then have "?x1 = ?x2" using assms(13,14) by (simp add: offset_from_def)
    then show ?thesis by simp
  next
    case (Infinity sm)
    then have "?x1 = ?x2" using assms(13,14) by (simp add: offset_from_def)
    then show ?thesis by simp
  qed
  have v: "gaussian_value T (a1 ! nat i) (a2 ! nat i) (a3 ! nat i) ?x1 =
      gaussian_value T (a1 ! nat i) (a2 ! nat i) (a3 ! nat i) ?x2"
    using e by (simp add: gaussian_value_ieee[OF assms(1)])
  obtain out1 where out1: "apply_fragment T this acc1 = Some out1"
    and lane1: "out1 ! nat i = destination_converter T
         (gaussian_value T (a1 ! nat i) (a2 ! nat i) (a3 ! nat i) ?x1)"
    using apply_fragment_lanes[OF assms(2) assms(4-9)] assms(10,11) by blast
  obtain out2 where out2: "apply_fragment T this acc2 = Some out2"
    and lane2: "out2 ! nat i = destination_converter T
         (gaussian_value T (a1 ! nat i) (a2 ! nat i) (a3 ! nat i) ?x2)"
    using apply_fragment_lanes[OF assms(3) assms(4-9)] assms(10,11) by blast
  show ?thesis
    using out1 out2 lane1 lane2 v by simp
qed

theorem even_about_mean_witness:
  "offset_from ([Finite False 1] ! nat 0) (1 / 2)
     (accumulator_converter scenario_instantiation ([Finite False (3 / 2)] ! nat 0)) \<and>
   offset_from ([Finite False 1] ! nat 0) (- (1 / 2))
     (accumulator_converter scenario_instantiation ([Finite False (1 / 2)] ! nat 0)) \<and>
   (\<exists>out1 out2. apply_fragment scenario_instantiation scenario_functor [Finite False (3 / 2)] = Some out1 \<and>
       apply_fragment scenario_instantiation scenario_functor [Finite False (1 / 2)] = Some out2 \<and>
       out1 ! nat 0 = out2 ! nat 0)"
  using even_about_mean[of scenario_instantiation exact exp "[Finite False (3 / 2)]" "[Finite False (1 / 2)]"
      scenario_functor "[Finite False 2]" "[Finite False 1]" "[Finite False (1 / 2)]" 0 "1 / 2"]
  by (simp add: scenario_instantiation_def scenario_functor_def float_instantiation_def
      GaussianEpilogue_ctor_def Params_of_def ieee_compute_def ieee_value_def is_zero_def
      offset_from_def)

text \<open>
  C8. Let the compute type have the IEEE arithmetic, \<open>p3[i]\<close> be a zero, and the
  converted accumulator \<open>x\<close> of lane \<open>i\<close> not compare equal to \<open>p2[i]\<close>, with a
  difference \<open>p2[i] - x\<close> that does not round to zero. Then \<open>operator()\<close> returns a
  fragment. Its lane \<open>i\<close> is the conversion of NaN when \<open>x\<close> or \<open>p2[i]\<close> is NaN.
  Otherwise it is the conversion of \<open>p1[i] * 0\<close>: the quotient is an infinity, the
  exponent argument \<open>-\<infinity>\<close>, the fast exponential \<open>+0\<close>, and the product is a zero
  for a finite \<open>p1[i]\<close> and NaN for an infinite or NaN \<open>p1[i]\<close>.
\<close>

theorem zero_deviation_output:
  assumes "ieee_compute T rnd aexp"
    and "length accumulator = nat (kCount T)"
    and "m_p1 this = Some a1" "m_p2 this = Some a2" "m_p3 this = Some a3"
    and "kCount T \<le> int (length a1)" "kCount T \<le> int (length a2)" "kCount T \<le> int (length a3)"
    and "0 \<le> i" "i < kCount T"
    and "is_zero (a3 ! nat i)"
    and "\<not> ieee_eq (accumulator_converter T (accumulator ! nat i)) (a2 ! nat i)"
    and "\<not> is_zero (ieee_sub rnd (a2 ! nat i) (accumulator_converter T (accumulator ! nat i)))"
  shows "\<exists>out. apply_fragment T this accumulator = Some out \<and>
     out ! nat i = destination_converter T
        (if is_nan (accumulator_converter T (accumulator ! nat i)) \<or> is_nan (a2 ! nat i) then NaN
         else case a1 ! nat i of Finite s mag \<Rightarrow> Finite s 0 | _ \<Rightarrow> NaN)"
proof -
  let ?x = "accumulator_converter T (accumulator ! nat i)"
  have v: "gaussian_value T (a1 ! nat i) (a2 ! nat i) (a3 ! nat i) ?x =
      (if is_nan ?x \<or> is_nan (a2 ! nat i) then NaN
       else case a1 ! nat i of Finite s mag \<Rightarrow> Finite s 0 | _ \<Rightarrow> NaN)"
  proof (cases "is_nan ?x \<or> is_nan (a2 ! nat i)")
    case True
    then have "ieee_sub rnd (a2 ! nat i) ?x = NaN"
      by (rule ieee_sub_nan)
    then show ?thesis
      using True by (simp add: gaussian_value_ieee[OF assms(1)] ieee_nan_propagates)
  next
    case False
    then have "\<not> is_nan ?x" "\<not> is_nan (a2 ! nat i)" by simp_all
    then have n: "\<not> is_nan (ieee_sub rnd (a2 ! nat i) ?x)"
      using assms(12) by (rule ieee_sub_differ)
    show ?thesis
      using False
      by (simp add: gaussian_value_ieee[OF assms(1)] exponent_at_zero_sigma[OF n assms(13,11)]
          ieee_expf_def ieee_mul_zero)
  qed
  obtain out where out: "apply_fragment T this accumulator = Some out"
    and lane: "out ! nat i = destination_converter T
         (gaussian_value T (a1 ! nat i) (a2 ! nat i) (a3 ! nat i) ?x)"
    using apply_fragment_lanes[OF assms(2-8)] assms(9,10) by blast
  show ?thesis
    using out lane v by auto
qed

theorem zero_deviation_output_witness:
  "is_zero ([Finite False 0] ! nat 0) \<and>
   \<not> ieee_eq (accumulator_converter scenario_instantiation ([Finite False 0] ! nat 0)) ([Finite False 1] ! nat 0) \<and>
   (\<exists>out. apply_fragment scenario_instantiation zero_deviation_functor [Finite False 0] = Some out \<and>
      out ! nat 0 = Finite False 0)"
  using zero_deviation_output[of scenario_instantiation exact exp "[Finite False 0]" zero_deviation_functor
      "[Finite False 2]" "[Finite False 1]" "[Finite False 0]" 0]
  by (simp add: scenario_instantiation_def zero_deviation_functor_def float_instantiation_def
      GaussianEpilogue_ctor_def Params_of_def ieee_compute_def ieee_eq_def ieee_value_def
      is_zero_def is_nan_def exact_def ieee_sub_def rounded_def)

text \<open>
  With \<open>p1 = [2]\<close>, \<open>p2 = [1]\<close>, \<open>p3 = [0]\<close> and the accumulator 0, which is not
  \<open>p2[0]\<close>, the output is the finite value \<open>+0\<close>. The one rounded operation on the
  way is \<open>1 - 0 = 1\<close>.
\<close>

theorem zero_deviation_counterexample:
  "is_zero (Finite False 0) \<and>
   \<not> ieee_eq (accumulator_converter scenario_instantiation (Finite False 0)) (Finite False 1) \<and>
   apply_fragment scenario_instantiation zero_deviation_functor [Finite False 0] = Some [Finite False 0] \<and>
   is_finite (Finite False 0)"
  by (simp add: apply_fragment_def scenario_instantiation_def zero_deviation_functor_def float_instantiation_def
     GaussianEpilogue_ctor_def Params_of_def accumulator_array_converter_def destination_array_converter_def
     loop_fragment_step loop_fragment_done deref_def gaussian_value_def is_zero_def ieee_eq_def is_finite_def
     ieee_sub_def ieee_div_def ieee_mul_def ieee_expf_def rounded_def exact_def ieee_value_def
     del: loop_fragment.simps)

subsection \<open>Monotone arithmetic\<close>

lemma monotone_roundingD:
  assumes "monotone_rounding rnd" "0 \<le> a" "a \<le> b" "rnd b = Some rb"
  shows "\<exists>ra. rnd a = Some ra \<and> ra \<le> rb"
proof -
  have "case rnd b of None \<Rightarrow> True
         | Some rb \<Rightarrow> (case rnd a of None \<Rightarrow> False | Some ra \<Rightarrow> ra \<le> rb)"
    using assms(1-3) by (simp add: monotone_rounding_def)
  then show ?thesis using assms(4) by (cases "rnd a") simp_all
qed

lemma rounded_mono:
  assumes "monotone_rounding rnd" "0 \<le> a" "a \<le> b"
  shows "magnitude_ge (rounded rnd t b) (rounded rnd s a) \<and>
         well_formed (rounded rnd s a) \<and> well_formed (rounded rnd t b)"
proof -
  have m: "case rnd b of None \<Rightarrow> True
         | Some rb \<Rightarrow> (case rnd a of None \<Rightarrow> False | Some ra \<Rightarrow> ra \<le> rb)"
    using assms by (simp add: monotone_rounding_def)
  have b0: "0 \<le> b" using assms(2,3) by simp
  have pa: "0 \<le> r" if "rnd a = Some r" for r
    using assms(1,2) that unfolding monotone_rounding_def by blast
  have pb: "0 \<le> r" if "rnd b = Some r" for r
    using assms(1) b0 that unfolding monotone_rounding_def by blast
  show ?thesis
    using m pa pb assms(2,3)
    by (auto simp add: rounded_def magnitude_ge_def well_formed_def split: option.splits)
qed


lemma le_mag_rounded:
  assumes "monotone_rounding rnd" "0 \<le> a" "a \<le> b"
  shows "le_mag (rounded rnd s a) (rounded rnd t b)"
  using rounded_mono[OF assms] by (simp add: le_mag_def)

lemma le_mag_sub:
  assumes "monotone_rounding rnd" "0 \<le> d1" "d1 \<le> d2"
    and "ieee_value s1 m1 = ieee_value sm mm + d1" "ieee_value s2 m2 = ieee_value sm mm + d2"
  shows "le_mag (ieee_sub rnd (Finite sm mm) (Finite s1 m1)) (ieee_sub rnd (Finite sm mm) (Finite s2 m2))"
proof -
  have 1: "ieee_sub rnd (Finite sm mm) (Finite s1 m1) = rounded rnd (if d1 = 0 then sm \<and> \<not> s1 else True) d1"
    using assms(2,4) by (simp add: ieee_sub_def rounded_def Let_def)
  have 2: "ieee_sub rnd (Finite sm mm) (Finite s2 m2) = rounded rnd (if d2 = 0 then sm \<and> \<not> s2 else True) d2"
    using assms(2,3,5) by (simp add: ieee_sub_def rounded_def Let_def)
  show ?thesis
    unfolding 1 2 using assms(1-3) by (rule le_mag_rounded)
qed

lemma le_mag_div:
  assumes "monotone_rounding rnd" "le_mag a b" "0 < n"
  shows "le_mag (ieee_div rnd a (Finite t n)) (ieee_div rnd b (Finite t n))"
proof -
  note n = assms(3)
  note Finite = refl[of "Finite t n"]
  show ?thesis
  proof (cases b)
    case NaN
    then show ?thesis using assms(2) by (cases a) (simp_all add: le_mag_def magnitude_ge_def)
  next
    case bi: (Infinity sb)
    show ?thesis
    proof (cases a)
      case NaN
      then show ?thesis using assms(2) bi by (simp add: le_mag_def magnitude_ge_def)
    next
      case (Infinity sa)
      then show ?thesis using bi Finite by (simp add: le_mag_def magnitude_ge_def well_formed_def ieee_div_def)
    next
      case af: (Finite sa ma)
      have "0 \<le> ma / n" using assms(2) af n by (simp add: le_mag_def well_formed_def)
      from le_mag_rounded[OF assms(1) this order_refl, of "sa \<noteq> t" "sa \<noteq> t"]
      have "well_formed (rounded rnd (sa \<noteq> t) (ma / n))" by (simp add: le_mag_def)
      moreover have "rounded rnd (sa \<noteq> t) (ma / n) \<noteq> NaN"
        by (simp add: rounded_def split: option.splits)
      ultimately show ?thesis
        using af bi Finite n
        by (cases "rounded rnd (sa \<noteq> t) (ma / n)")
           (simp_all add: le_mag_def magnitude_ge_def well_formed_def ieee_div_def)
    qed
  next
    case bf: (Finite sb mb)
    show ?thesis
    proof (cases a)
      case NaN
      then show ?thesis using assms(2) bf by (simp add: le_mag_def magnitude_ge_def)
    next
      case (Infinity sa)
      then show ?thesis using assms(2) bf by (simp add: le_mag_def magnitude_ge_def)
    next
      case af: (Finite sa ma)
      have "0 \<le> ma / n" "ma / n \<le> mb / n"
        using assms(2) af bf n by (simp_all add: le_mag_def well_formed_def magnitude_ge_def divide_right_mono)
      from le_mag_rounded[OF assms(1) this]
      show ?thesis using af bf Finite n by (simp add: ieee_div_def)
    qed
  qed
qed


lemma exponent_finite:
  "ieee_mul rnd (ieee_mul rnd (Finite True (1 / 2)) (Finite s m)) (Finite s m) =
     (if m = 0 then Finite True 0
      else case rnd (m / 2) of None \<Rightarrow> Infinity True | Some r \<Rightarrow> rounded rnd True (r * m))"
  by (simp add: ieee_mul_def rounded_def split: option.splits)

lemma exponent_infinite:
  "ieee_mul rnd (ieee_mul rnd (Finite True (1 / 2)) (Infinity s)) (Infinity s) = Infinity True"
  by (simp add: ieee_mul_def)

lemma le_mag_exponent:
  assumes "monotone_rounding rnd" "le_mag q q'"
  shows "le_mag (ieee_mul rnd (ieee_mul rnd (Finite True (1 / 2)) q) q)
                (ieee_mul rnd (ieee_mul rnd (Finite True (1 / 2)) q') q') \<and>
         neg_signed (ieee_mul rnd (ieee_mul rnd (Finite True (1 / 2)) q) q) \<and>
         neg_signed (ieee_mul rnd (ieee_mul rnd (Finite True (1 / 2)) q') q')"
proof -
  let ?E = "\<lambda>q. ieee_mul rnd (ieee_mul rnd (Finite True (1 / 2)) q) q"
  have fin: "well_formed (?E (Finite s m)) \<and> neg_signed (?E (Finite s m)) \<and> ?E (Finite s m) \<noteq> NaN"
    if "0 \<le> m" for s m
  proof (cases "m = 0")
    case True
    then show ?thesis by (simp add: exponent_finite well_formed_def neg_signed_def)
  next
    case False
    show ?thesis
    proof (cases "rnd (m / 2)")
      case None
      then show ?thesis using False by (simp add: exponent_finite well_formed_def neg_signed_def)
    next
      case (Some r)
      have "0 \<le> r" using assms(1) that Some unfolding monotone_rounding_def
        by (metis divide_nonneg_nonneg zero_le_numeral)
      then have "0 \<le> r * m" using that by simp
      from le_mag_rounded[OF assms(1) this order_refl, of True True]
      have "well_formed (rounded rnd True (r * m))" by (simp add: le_mag_def)
      then show ?thesis using False Some
        by (simp add: exponent_finite neg_signed_def rounded_def split: option.splits)
    qed
  qed
  show ?thesis
  proof (cases q')
    case NaN
    then show ?thesis using assms(2) by (cases q) (simp_all add: le_mag_def magnitude_ge_def)
  next
    case qi: (Infinity s')
    show ?thesis
    proof (cases q)
      case NaN
      then show ?thesis using assms(2) qi by (simp add: le_mag_def magnitude_ge_def)
    next
      case (Infinity s)
      then show ?thesis using qi
        by (simp add: exponent_infinite le_mag_def magnitude_ge_def well_formed_def neg_signed_def)
    next
      case (Finite s m)
      then have "0 \<le> m" using assms(2) by (simp add: le_mag_def well_formed_def)
      from fin[OF this, of s] show ?thesis using qi Finite
        by (cases "?E (Finite s m)")
           (simp_all add: exponent_infinite le_mag_def magnitude_ge_def well_formed_def neg_signed_def)
    qed
  next
    case qf: (Finite s' m')
    show ?thesis
    proof (cases q)
      case NaN
      then show ?thesis using assms(2) qf by (simp add: le_mag_def magnitude_ge_def)
    next
      case (Infinity s)
      then show ?thesis using assms(2) qf by (simp add: le_mag_def magnitude_ge_def)
    next
      case (Finite s m)
      then have m: "0 \<le> m" "m \<le> m'"
        using assms(2) qf by (simp_all add: le_mag_def well_formed_def magnitude_ge_def)
      then have m': "0 \<le> m'" by simp
      note f = fin[OF m(1), of s] and f' = fin[OF m', of s']
      have "magnitude_ge (?E (Finite s' m')) (?E (Finite s m))"
      proof (cases "m = 0")
        case True
        then have "?E (Finite s m) = Finite True 0" by (simp add: exponent_finite)
        then show ?thesis using f'
          by (cases "?E (Finite s' m')") (simp_all add: magnitude_ge_def well_formed_def)
      next
        case False
        then have nz: "m \<noteq> 0" "m' \<noteq> 0" using m by auto
        show ?thesis
        proof (cases "rnd (m' / 2)")
          case None
          then have "?E (Finite s' m') = Infinity True" using nz by (simp add: exponent_finite)
          then show ?thesis using f
            by (cases "?E (Finite s m)") (simp_all add: magnitude_ge_def)
        next
          case (Some r')
          have h: "0 \<le> m / 2" "m / 2 \<le> m' / 2" using m by simp_all
          from monotone_roundingD[OF assms(1) h Some]
          obtain r where r: "rnd (m / 2) = Some r" "r \<le> r'" by blast
          have r0: "0 \<le> r" using assms(1) h(1) r(1) unfolding monotone_rounding_def by blast
          have "0 \<le> r * m" "r * m \<le> r' * m'"
            using r0 r(2) m by (simp_all add: mult_mono)
          from le_mag_rounded[OF assms(1) this, of True True]
          show ?thesis using nz r Some by (simp add: exponent_finite le_mag_def)
        qed
      qed
      then show ?thesis using f f' Finite qf by (simp add: le_mag_def)
    qed
  qed
qed

lemma le_mag_expf:
  assumes "monotone_rounding rnd" "monotone_exp rnd aexp"
    and "le_mag e e'" "neg_signed e" "neg_signed e'"
  shows "le_mag (ieee_expf rnd aexp e') (ieee_expf rnd aexp e) \<and>
         is_finite (ieee_expf rnd aexp e') \<and> is_finite (ieee_expf rnd aexp e)"
proof -
  have mono: "0 \<le> aexp u" "aexp u \<le> aexp v" if "u \<le> v" "v \<le> 0" for u v
    using assms(2) that unfolding monotone_exp_def by blast+
  have fin: "is_finite (rounded rnd False (aexp (- m)))" if "0 \<le> m" for m
  proof -
    obtain rb where rb: "rnd (aexp 0) = Some rb"
      using assms(2) unfolding monotone_exp_def by blast
    have "0 \<le> aexp (- m)" "aexp (- m) \<le> aexp 0"
      using mono[of "- m" 0] that by simp_all
    from monotone_roundingD[OF assms(1) this rb]
    have "rnd (aexp (- m)) \<noteq> None" by auto
    then show ?thesis by (auto simp add: rounded_def is_finite_def split: option.splits)
  qed
  have val: "ieee_expf rnd aexp (Finite True m) = rounded rnd False (aexp (- m))" for m
    by (simp add: ieee_expf_def ieee_value_def)
  have inf: "ieee_expf rnd aexp (Infinity True) = rounded rnd False 0"
    by (simp add: ieee_expf_def rounded_def)
  have zero: "is_finite (rounded rnd False 0)" by (simp add: rounded_def is_finite_def)
  show ?thesis
  proof (cases e')
    case NaN
    then show ?thesis using assms(5) by (simp add: neg_signed_def)
  next
    case ei: (Infinity s')
    then have s': "s'" using assms(5) by (simp add: neg_signed_def)
    show ?thesis
    proof (cases e)
      case NaN
      then show ?thesis using assms(4) by (simp add: neg_signed_def)
    next
      case (Infinity s)
      then have "s" using assms(4) by (simp add: neg_signed_def)
      then show ?thesis using Infinity ei s' zero
        by (simp add: inf le_mag_rounded[OF assms(1)])
    next
      case (Finite s m)
      then have s: "s" and m: "0 \<le> m"
        using assms(3,4) by (simp_all add: neg_signed_def le_mag_def well_formed_def)
      have "0 \<le> aexp (- m)" using mono[of "- m" "- m"] m by simp
      from le_mag_rounded[OF assms(1) order_refl this, of False False]
      show ?thesis using Finite ei s s' zero fin[OF m] by (simp add: inf val)
    qed
  next
    case ef: (Finite s' m')
    then have s': "s'" and m': "0 \<le> m'"
      using assms(3,5) by (simp_all add: neg_signed_def le_mag_def well_formed_def)
    show ?thesis
    proof (cases e)
      case NaN
      then show ?thesis using assms(4) by (simp add: neg_signed_def)
    next
      case (Infinity s)
      then show ?thesis using assms(3) ef by (simp add: le_mag_def magnitude_ge_def)
    next
      case (Finite s m)
      then have s: "s" and m: "0 \<le> m" "m \<le> m'"
        using assms(3,4) ef by (simp_all add: neg_signed_def le_mag_def well_formed_def magnitude_ge_def)
      have "0 \<le> aexp (- m')" "aexp (- m') \<le> aexp (- m)"
        using mono[of "- m'" "- m"] m by simp_all
      from le_mag_rounded[OF assms(1) this, of False False]
      show ?thesis using Finite ef s s' fin[OF m(1)] fin[OF m'] by (simp add: val)
    qed
  qed
qed

lemma le_mag_amplitude:
  assumes "monotone_rounding rnd" "0 \<le> m1" "le_mag a b" "is_finite a" "is_finite b"
  shows "le_mag (ieee_mul rnd (Finite s1 m1) a) (ieee_mul rnd (Finite s1 m1) b)"
proof -
  obtain sa ma where a: "a = Finite sa ma" using assms(4) by (cases a) (simp_all add: is_finite_def)
  obtain sb mb where b: "b = Finite sb mb" using assms(5) by (cases b) (simp_all add: is_finite_def)
  have "0 \<le> m1 * ma" "m1 * ma \<le> m1 * mb"
    using assms(2,3) a b by (simp_all add: le_mag_def well_formed_def magnitude_ge_def mult_left_mono)
  from le_mag_rounded[OF assms(1) this]
  show ?thesis by (simp add: a b ieee_mul_def)
qed

lemma exact_monotone: "monotone_rounding exact"
  by (simp add: monotone_rounding_def exact_def)

lemma exp_monotone: "monotone_exp exact exp"
  by (simp add: monotone_exp_def exact_def)

text \<open>
  C7. Let the compute type have the IEEE arithmetic with a monotone rounding and a
  monotone fast exponential, and let the output conversion keep the order of
  magnitudes. Let \<open>p1[i]\<close> and \<open>p2[i]\<close> be finite and \<open>p3[i]\<close> be finite and not zero,
  and the converted accumulators of lane \<open>i\<close> in two fragments be the values
  \<open>p2[i] + d1\<close> and \<open>p2[i] + d2\<close> with \<open>0 \<le> d1 < d2\<close>. Then both outputs are numbers
  in lane \<open>i\<close>, and the magnitude of the first is at least the magnitude of the second.
\<close>

theorem decay_away_from_mean:
  assumes "ieee_compute T rnd aexp"
    and "monotone_rounding rnd" "monotone_exp rnd aexp"
    and "\<forall>a b. magnitude_ge a b \<longrightarrow>
           magnitude_ge (destination_converter T a) (destination_converter T b)"
    and "length acc1 = nat (kCount T)" "length acc2 = nat (kCount T)"
    and "m_p1 this = Some a1" "m_p2 this = Some a2" "m_p3 this = Some a3"
    and "kCount T \<le> int (length a1)" "kCount T \<le> int (length a2)" "kCount T \<le> int (length a3)"
    and "0 \<le> i" "i < kCount T"
    and "is_finite (a1 ! nat i)" "well_formed (a1 ! nat i)"
    and "is_finite (a2 ! nat i)"
    and "is_finite (a3 ! nat i)" "well_formed (a3 ! nat i)" "\<not> is_zero (a3 ! nat i)"
    and "0 \<le> d1" "d1 < d2"
    and "offset_from (a2 ! nat i) d1 (accumulator_converter T (acc1 ! nat i))"
    and "offset_from (a2 ! nat i) d2 (accumulator_converter T (acc2 ! nat i))"
  shows "\<exists>out1 out2. apply_fragment T this acc1 = Some out1 \<and>
       apply_fragment T this acc2 = Some out2 \<and> magnitude_ge (out1 ! nat i) (out2 ! nat i)"
proof -
  let ?x1 = "accumulator_converter T (acc1 ! nat i)"
  let ?x2 = "accumulator_converter T (acc2 ! nat i)"
  obtain s1 m1 where p1: "a1 ! nat i = Finite s1 m1" and m1: "0 \<le> m1"
    using assms(15,16) by (cases "a1 ! nat i") (simp_all add: is_finite_def well_formed_def)
  obtain sm mm where p2: "a2 ! nat i = Finite sm mm"
    using assms(17) by (cases "a2 ! nat i") (simp_all add: is_finite_def)
  obtain s3 m3 where p3: "a3 ! nat i = Finite s3 m3" and m3: "0 < m3"
    using assms(18,19,20) by (cases "a3 ! nat i") (simp_all add: is_finite_def well_formed_def is_zero_def)
  obtain t1 n1 where x1: "?x1 = Finite t1 n1" and v1: "ieee_value t1 n1 = ieee_value sm mm + d1"
    using assms(23) p2 by (cases ?x1) (simp_all add: offset_from_def)
  obtain t2 n2 where x2: "?x2 = Finite t2 n2" and v2: "ieee_value t2 n2 = ieee_value sm mm + d2"
    using assms(24) p2 by (cases ?x2) (simp_all add: offset_from_def)
  let ?q1 = "ieee_div rnd (ieee_sub rnd (Finite sm mm) (Finite t1 n1)) (Finite s3 m3)"
  let ?q2 = "ieee_div rnd (ieee_sub rnd (Finite sm mm) (Finite t2 n2)) (Finite s3 m3)"
  let ?E = "\<lambda>q. ieee_mul rnd (ieee_mul rnd (Finite True (1 / 2)) q) q"
  have "d1 \<le> d2" using assms(22) by simp
  from le_mag_sub[OF assms(2,21) this v1 v2]
  have "le_mag ?q1 ?q2" using m3 by (intro le_mag_div[OF assms(2)])
  from le_mag_exponent[OF assms(2) this]
  have "le_mag (?E ?q1) (?E ?q2)" "neg_signed (?E ?q1)" "neg_signed (?E ?q2)" by simp_all
  from le_mag_expf[OF assms(2,3) this]
  have "le_mag (ieee_expf rnd aexp (?E ?q2)) (ieee_expf rnd aexp (?E ?q1))"
    "is_finite (ieee_expf rnd aexp (?E ?q2))" "is_finite (ieee_expf rnd aexp (?E ?q1))" by simp_all
  from le_mag_amplitude[OF assms(2) m1 this, of s1]
  have "magnitude_ge (gaussian_value T (a1 ! nat i) (a2 ! nat i) (a3 ! nat i) ?x1)
      (gaussian_value T (a1 ! nat i) (a2 ! nat i) (a3 ! nat i) ?x2)"
    by (simp add: gaussian_value_ieee[OF assms(1)] p1 p2 p3 x1 x2 le_mag_def)
  then have v: "magnitude_ge
      (destination_converter T (gaussian_value T (a1 ! nat i) (a2 ! nat i) (a3 ! nat i) ?x1))
      (destination_converter T (gaussian_value T (a1 ! nat i) (a2 ! nat i) (a3 ! nat i) ?x2))"
    using assms(4) by blast
  obtain out1 where out1: "apply_fragment T this acc1 = Some out1"
    and lane1: "out1 ! nat i = destination_converter T
         (gaussian_value T (a1 ! nat i) (a2 ! nat i) (a3 ! nat i) ?x1)"
    using apply_fragment_lanes[OF assms(5) assms(7-12)] assms(13,14) by blast
  obtain out2 where out2: "apply_fragment T this acc2 = Some out2"
    and lane2: "out2 ! nat i = destination_converter T
         (gaussian_value T (a1 ! nat i) (a2 ! nat i) (a3 ! nat i) ?x2)"
    using apply_fragment_lanes[OF assms(6) assms(7-12)] assms(13,14) by blast
  show ?thesis
    using out1 out2 lane1 lane2 v by simp
qed

theorem decay_away_from_mean_witness:
  "monotone_rounding exact \<and> monotone_exp exact exp \<and>
   \<not> is_zero ([Finite False (1 / 2)] ! nat 0) \<and>
   offset_from ([Finite False 1] ! nat 0) (1 / 2)
     (accumulator_converter scenario_instantiation ([Finite False (3 / 2)] ! nat 0)) \<and>
   offset_from ([Finite False 1] ! nat 0) 1
     (accumulator_converter scenario_instantiation ([Finite False 2] ! nat 0)) \<and>
   (\<exists>out1 out2. apply_fragment scenario_instantiation scenario_functor [Finite False (3 / 2)] = Some out1 \<and>
       apply_fragment scenario_instantiation scenario_functor [Finite False 2] = Some out2 \<and>
       magnitude_ge (out1 ! nat 0) (out2 ! nat 0))"
  using decay_away_from_mean[of scenario_instantiation exact exp "[Finite False (3 / 2)]" "[Finite False 2]"
      scenario_functor "[Finite False 2]" "[Finite False 1]" "[Finite False (1 / 2)]" 0 "1 / 2" 1]
    exact_monotone exp_monotone
  by (simp add: scenario_instantiation_def scenario_functor_def float_instantiation_def
      GaussianEpilogue_ctor_def Params_of_def ieee_compute_def ieee_value_def is_zero_def
      is_finite_def well_formed_def offset_from_def)

text \<open>
  With \<open>p1 = [2]\<close>, \<open>p2 = [1]\<close> and \<open>p3 = [NaN]\<close>, which is not zero, the outputs at
  the accumulators \<open>1 + 1/2\<close> and \<open>1 + 1\<close> are both NaN, and NaN is in no order with
  NaN.
\<close>

theorem decay_away_from_mean_counterexample:
  "\<not> is_zero NaN \<and> (0::real) \<le> 1 / 2 \<and> (1 / 2 :: real) < 1 \<and>
   offset_from (Finite False 1) (1 / 2) (accumulator_converter scenario_instantiation (Finite False (3 / 2))) \<and>
   offset_from (Finite False 1) 1 (accumulator_converter scenario_instantiation (Finite False 2)) \<and>
   apply_fragment scenario_instantiation nan_deviation_functor [Finite False (3 / 2)] = Some [NaN] \<and>
   apply_fragment scenario_instantiation nan_deviation_functor [Finite False 2] = Some [NaN] \<and>
   magnitude_ge NaN NaN = False"
  by (simp add: is_zero_def offset_from_def magnitude_ge_def
     apply_fragment_def scenario_instantiation_def nan_deviation_functor_def float_instantiation_def
     GaussianEpilogue_ctor_def Params_of_def accumulator_array_converter_def destination_array_converter_def
     loop_fragment.simps[of _ _ _ 0] loop_fragment.simps[of _ _ _ 1] deref_def
     ieee_sub_def ieee_div_def ieee_mul_def ieee_expf_def rounded_def exact_def ieee_value_def
     del: loop_fragment.simps)

end
